theory Spec2Isabelle
  imports Complex_Main "HOL-Library.Sublist"
begin

section \<open>Strings and paths\<close>

text \<open>
  Python strings are modelled as \<open>string\<close> (lists of 8-bit characters). \<open>str.lower\<close>
  and \<open>str.upper\<close> are modelled on the ASCII letters; other characters are left as
  they are.
\<close>

definition translate :: "string \<Rightarrow> string \<Rightarrow> char \<Rightarrow> char" where
  "translate src dst c = (case map_of (zip src dst) c of Some d \<Rightarrow> d | None \<Rightarrow> c)"

definition lower_char :: "char \<Rightarrow> char" where
  "lower_char = translate ''ABCDEFGHIJKLMNOPQRSTUVWXYZ'' ''abcdefghijklmnopqrstuvwxyz''"

definition upper_char :: "char \<Rightarrow> char" where
  "upper_char = translate ''abcdefghijklmnopqrstuvwxyz'' ''ABCDEFGHIJKLMNOPQRSTUVWXYZ''"

definition lower :: "string \<Rightarrow> string" where
  "lower s = map lower_char s"

definition upper :: "string \<Rightarrow> string" where
  "upper s = map upper_char s"

text \<open>\<open>sub in s\<close> on strings: \<open>sub\<close> occurs in \<open>s\<close> as a contiguous run.\<close>

fun starts_with :: "'a list \<Rightarrow> 'a list \<Rightarrow> bool" where
  "starts_with s [] = True"
| "starts_with [] (p # ps) = False"
| "starts_with (x # xs) (p # ps) = (x = p \<and> starts_with xs ps)"

fun contains :: "'a list \<Rightarrow> 'a list \<Rightarrow> bool" where
  "contains [] sub = (sub = [])"
| "contains (x # xs) sub = (starts_with (x # xs) sub \<or> contains xs sub)"

definition ends_with :: "'a list \<Rightarrow> 'a list \<Rightarrow> bool" where
  "ends_with s p = starts_with (rev s) (rev p)"

text \<open>\<open>s.rfind(c)\<close>: the index of the last occurrence of \<open>c\<close>, or \<open>-1\<close>.\<close>

fun rfind :: "'a \<Rightarrow> 'a list \<Rightarrow> int" where
  "rfind c [] = -1"
| "rfind c (x # xs) = (let r = rfind c xs in if 0 \<le> r then r + 1 else if x = c then 0 else -1)"

text \<open>\<open>s.split(c)\<close> and \<open>c.join(parts)\<close>.\<close>

fun split_on :: "'a \<Rightarrow> 'a list \<Rightarrow> 'a list list" where
  "split_on c [] = [[]]"
| "split_on c (x # xs) =
     (if x = c then [] # split_on c xs
      else (case split_on c xs of [] \<Rightarrow> [[x]] | w # ws \<Rightarrow> (x # w) # ws))"

fun join_sep :: "'a list \<Rightarrow> 'a list list \<Rightarrow> 'a list" where
  "join_sep sep [] = []"
| "join_sep sep [p] = p"
| "join_sep sep (p # q # ps) = p @ sep @ join_sep sep (q # ps)"

text \<open>\<open>str(n)\<close> for a non-negative integer: its decimal digits.\<close>

definition digit_char :: "nat \<Rightarrow> char" where
  "digit_char d = ''0123456789'' ! d"

fun str_nat :: "nat \<Rightarrow> string" where
  "str_nat n = (if n < 10 then [digit_char n] else str_nat (n div 10) @ [digit_char (n mod 10)])"

declare str_nat.simps [simp del]

text \<open>
  The same digits computed on integers. Kernel evaluation of a concrete call is much
  faster on binary integers than on natural numbers, so this equation is the one that
  evaluation uses; \<open>str_nat\<close> stays the definition.
\<close>

function digits_of :: "int \<Rightarrow> string" where
  "digits_of n =
     (if n < 10 then [digit_char (nat n)]
      else digits_of (n div 10) @ [digit_char (nat (n mod 10))])"
  by pat_completeness auto
termination
  by (relation "measure nat") auto

declare digits_of.simps [simp del]

lemma str_nat_digits_of [code]: "str_nat n = digits_of (int n)"
proof (induction n rule: str_nat.induct)
  case (1 n)
  show ?case
  proof (cases "n < 10")
    case True
    then show ?thesis by (subst str_nat.simps, subst digits_of.simps) simp
  next
    case False
    then have "str_nat (n div 10) = digits_of (int (n div 10))" by (rule "1.IH")
    with False show ?thesis
      by (subst str_nat.simps, subst digits_of.simps) (simp add: zdiv_int nat_mod_distrib)
  qed
qed

text \<open>
  Paths follow the POSIX flavour of \<open>os.path\<close> and \<open>pathlib\<close>: the separator is
  \<open>/\<close>. \<open>os.path.join\<close> with two arguments, and folded over more.
\<close>

definition path_join :: "string \<Rightarrow> string \<Rightarrow> string" where
  "path_join a b =
     (if starts_with b ''/'' then b
      else if a = [] \<or> ends_with a ''/'' then a @ b
      else a @ ''/'' @ b)"

definition path_join_all :: "string \<Rightarrow> string list \<Rightarrow> string" where
  "path_join_all a ps = foldl path_join a ps"

text \<open>\<open>os.path.splitext\<close>: the extension starts at the last dot of the last
  component, unless that component has only leading dots before it.\<close>

definition splitext :: "string \<Rightarrow> string \<times> string" where
  "splitext p =
     (let sepIndex = rfind CHR ''/'' p; dotIndex = rfind CHR ''.'' p in
      if sepIndex < dotIndex
         \<and> list_ex (\<lambda>c. c \<noteq> CHR ''.'') (drop (nat (sepIndex + 1)) (take (nat dotIndex) p))
      then (take (nat dotIndex) p, drop (nat dotIndex) p)
      else (p, []))"

text \<open>
  A \<open>pathlib\<close> path: its root (\<open>''\<close>, \<open>/\<close> or \<open>//\<close>) and its components; empty
  components and \<open>.\<close> are dropped when the path is parsed.
\<close>

record pure_path =
  anchor :: string
  segments :: "string list"

definition splitroot :: "string \<Rightarrow> string \<times> string" where
  "splitroot p =
     (if take 1 p \<noteq> ''/'' then ([], p)
      else if take 1 (drop 1 p) \<noteq> ''/'' \<or> take 1 (drop 2 p) = ''/'' then (''/'', drop 1 p)
      else (''//'', drop 2 p))"

definition Path :: "string \<Rightarrow> pure_path" where
  "Path p = (let (r, rel) = splitroot p in
     \<lparr>anchor = r, segments = filter (\<lambda>x. x \<noteq> [] \<and> x \<noteq> ''.'') (split_on CHR ''/'' rel)\<rparr>)"

definition path_str :: "pure_path \<Rightarrow> string" where
  "path_str pp = (let s = anchor pp @ join_sep ''/'' (segments pp) in if s = [] then ''.'' else s)"

definition path_name :: "pure_path \<Rightarrow> string" where
  "path_name pp = (if segments pp = [] then [] else last (segments pp))"

definition name_suffix :: "string \<Rightarrow> string" where
  "name_suffix name =
     (let i = rfind CHR ''.'' name in
      if 0 < i \<and> i < int (length name) - 1 then drop (nat i) name else [])"

definition name_stem :: "string \<Rightarrow> string" where
  "name_stem name =
     (let i = rfind CHR ''.'' name in
      if 0 < i \<and> i < int (length name) - 1 then take (nat i) name else name)"

definition suffix_of :: "string \<Rightarrow> string" where
  "suffix_of p = name_suffix (path_name (Path p))"

definition stem_of :: "string \<Rightarrow> string" where
  "stem_of p = name_stem (path_name (Path p))"

definition parent :: "pure_path \<Rightarrow> pure_path" where
  "parent pp = pp\<lparr>segments := butlast (segments pp)\<rparr>"

definition joinpath :: "pure_path \<Rightarrow> string \<Rightarrow> pure_path" where
  "joinpath pp n = Path (path_join (path_str pp) n)"

text \<open>
  The paths that parsing produces: the root is one of the three, and every component
  is non-empty, is not \<open>.\<close> and has no separator.
\<close>

definition good_name :: "string \<Rightarrow> bool" where
  "good_name n = (n \<noteq> [] \<and> n \<noteq> ''.'' \<and> CHR ''/'' \<notin> set n)"

definition wf_path :: "pure_path \<Rightarrow> bool" where
  "wf_path pp = (anchor pp \<in> set [[], ''/'', ''//''] \<and> list_all good_name (segments pp))"

section \<open>Media classifier\<close>

definition image_extensions :: "string list" where
  "image_extensions =
     [''.jpg'', ''.jpeg'', ''.png'', ''.gif'', ''.bmp'', ''.tiff'', ''.tif'',
      ''.webp'', ''.heic'', ''.heif'', ''.raw'', ''.cr2'', ''.nef'', ''.arw'',
      ''.dng'', ''.orf'', ''.rw2'', ''.pef'', ''.srw'', ''.raf'',
      ''.psd'', ''.xmp'',
      ''.avi'', ''.mov'', ''.wmv'']"

definition is_image_file :: "string \<Rightarrow> bool" where
  "is_image_file file_path = (lower (suffix_of file_path) \<in> set image_extensions)"

section \<open>Dates\<close>

text \<open>
  A \<open>datetime\<close> value. \<open>strftime("%Y")\<close> is the year in four digits and
  \<open>strftime("%Y%m%d")\<close> adds month and day in two digits each, padded with zeros.
\<close>

record datetime =
  year :: nat
  month :: nat
  day :: nat
  hour :: nat
  minute :: nat
  second :: nat

definition zero_pad :: "nat \<Rightarrow> string \<Rightarrow> string" where
  "zero_pad w s = replicate (w - length s) CHR ''0'' @ s"

definition strftime_Y :: "datetime \<Rightarrow> string" where
  "strftime_Y d = zero_pad 4 (str_nat (year d))"

definition strftime_Ymd :: "datetime \<Rightarrow> string" where
  "strftime_Ymd d = zero_pad 4 (str_nat (year d)) @ zero_pad 2 (str_nat (month d)) @ zero_pad 2 (str_nat (day d))"

text \<open>
  \<open>datetime.strptime(value, "%Y:%m:%d %H:%M:%S")\<close>. The library turns the format
  into a regular expression, takes its first match at the start of the string and refuses
  a string with text left over. Each directive is a function from a string to the ways
  its expression matches a prefix, in the order the matcher tries them, each with the
  number read and the rest of the string:
  \<open>%Y\<close> is \<open>\d\d\d\d\<close>, \<open>%m\<close> is \<open>1[0-2]|0[1-9]|[1-9]\<close>,
  \<open>%d\<close> is \<open>3[0-1]|[1-2]\d|0[1-9]|[1-9]| [1-9]\<close>, \<open>%H\<close> is \<open>2[0-3]|[0-1]\d|\d\<close>,
  \<open>%M\<close> is \<open>[0-5]\d|\d\<close>, \<open>%S\<close> is \<open>6[0-1]|[0-5]\d|\d\<close>, and the blank of the
  format is \<open>\s+\<close>. The result is \<open>None\<close> where the library raises \<open>ValueError\<close>.
\<close>

definition digit_val :: "char \<Rightarrow> nat option" where
  "digit_val c = map_of (zip ''0123456789'' [0, 1, 2, 3, 4, 5, 6, 7, 8, 9]) c"

text \<open>One digit whose value lies between \<open>lo\<close> and \<open>hi\<close>.\<close>

definition digit_in :: "nat \<Rightarrow> nat \<Rightarrow> string \<Rightarrow> (nat \<times> string) list" where
  "digit_in lo hi s =
     (case s of [] \<Rightarrow> []
      | c # r \<Rightarrow> (case digit_val c of None \<Rightarrow> []
          | Some v \<Rightarrow> if lo \<le> v \<and> v \<le> hi then [(v, r)] else []))"

text \<open>Two digits, the first in \<open>[lo1, hi1]\<close> and the second in \<open>[lo2, hi2]\<close>.\<close>

definition two_digits :: "nat \<Rightarrow> nat \<Rightarrow> nat \<Rightarrow> nat \<Rightarrow> string \<Rightarrow> (nat \<times> string) list" where
  "two_digits lo1 hi1 lo2 hi2 s =
     concat (map (\<lambda>(a, r). map (\<lambda>(b, r'). (10 * a + b, r')) (digit_in lo2 hi2 r)) (digit_in lo1 hi1 s))"

definition literal :: "char \<Rightarrow> string \<Rightarrow> string list" where
  "literal c s = (case s of [] \<Rightarrow> [] | x # r \<Rightarrow> if x = c then [r] else [])"

definition re_Y :: "string \<Rightarrow> (nat \<times> string) list" where
  "re_Y s =
     concat (map (\<lambda>(a, r). map (\<lambda>(b, r'). (100 * a + b, r')) (two_digits 0 9 0 9 r)) (two_digits 0 9 0 9 s))"

definition re_m :: "string \<Rightarrow> (nat \<times> string) list" where
  "re_m s = two_digits 1 1 0 2 s @ two_digits 0 0 1 9 s @ digit_in 1 9 s"

definition re_d :: "string \<Rightarrow> (nat \<times> string) list" where
  "re_d s = two_digits 3 3 0 1 s @ two_digits 1 2 0 9 s @ two_digits 0 0 1 9 s @ digit_in 1 9 s
     @ concat (map (digit_in 1 9) (literal CHR '' '' s))"

definition re_H :: "string \<Rightarrow> (nat \<times> string) list" where
  "re_H s = two_digits 2 2 0 3 s @ two_digits 0 1 0 9 s @ digit_in 0 9 s"

definition re_M :: "string \<Rightarrow> (nat \<times> string) list" where
  "re_M s = two_digits 0 5 0 9 s @ digit_in 0 9 s"

definition re_S :: "string \<Rightarrow> (nat \<times> string) list" where
  "re_S s = two_digits 6 6 0 1 s @ two_digits 0 5 0 9 s @ digit_in 0 9 s"

definition is_space :: "char \<Rightarrow> bool" where
  "is_space c = (c \<in> set [CHR '' '', CHR 0x09, CHR 0x0A, CHR 0x0B, CHR 0x0C, CHR 0x0D,
     CHR 0x1C, CHR 0x1D, CHR 0x1E, CHR 0x1F])"

definition re_spaces :: "string \<Rightarrow> string list" where
  "re_spaces s = map (\<lambda>k. drop k s) (rev [1..<Suc (length (takeWhile is_space s))])"

definition then_lit :: "char \<Rightarrow> ('a \<times> string) list \<Rightarrow> ('a \<times> string) list" where
  "then_lit c ms = concat (map (\<lambda>(v, r). map (\<lambda>r'. (v, r')) (literal c r)) ms)"

definition then_num :: "(string \<Rightarrow> (nat \<times> string) list) \<Rightarrow> (nat list \<times> string) list \<Rightarrow> (nat list \<times> string) list" where
  "then_num p ms = concat (map (\<lambda>(vs, r). map (\<lambda>(v, r'). (vs @ [v], r')) (p r)) ms)"

definition then_spaces :: "('a \<times> string) list \<Rightarrow> ('a \<times> string) list" where
  "then_spaces ms = concat (map (\<lambda>(v, r). map (\<lambda>r'. (v, r')) (re_spaces r)) ms)"

definition format_matches :: "string \<Rightarrow> (nat list \<times> string) list" where
  "format_matches s =
     then_num re_S (then_lit CHR '':'' (then_num re_M (then_lit CHR '':'' (then_num re_H
       (then_spaces (then_num re_d (then_lit CHR '':'' (then_num re_m (then_lit CHR '':''
         (then_num re_Y [([], s)]))))))))))"

definition is_leap :: "nat \<Rightarrow> bool" where
  "is_leap y = (y mod 4 = 0 \<and> (y mod 100 \<noteq> 0 \<or> y mod 400 = 0))"

definition days_in_month :: "nat \<Rightarrow> nat \<Rightarrow> nat" where
  "days_in_month y m =
     (if m = 2 then (if is_leap y then 29 else 28)
      else if m \<in> set [4, 6, 9, 11] then 30 else 31)"

definition strptime :: "string \<Rightarrow> datetime option" where
  "strptime s =
     (case format_matches s of
        ([Y, m, d, H, M, S], rest) # others \<Rightarrow>
          if rest = [] \<and> 1 \<le> Y \<and> d \<le> days_in_month Y m \<and> S \<le> 59
          then Some \<lparr>year = Y, month = m, day = d, hour = H, minute = M, second = S\<rparr>
          else None
      | _ \<Rightarrow> None)"

section \<open>The environment: exceptions, the file system, the platform\<close>

text \<open>
  An exception is its class and its message (\<open>str(e)\<close>). A function of the source that
  may raise returns \<open>exn + 'a\<close>, with \<open>Inl\<close> for the exception.
\<close>

datatype exn_class = PermissionError | FileNotFoundError | OSError | OverflowError | ValueError

datatype exn = Exn exn_class string

fun exn_kind :: "exn \<Rightarrow> exn_class" where
  "exn_kind (Exn k m) = k"

fun exn_str :: "exn \<Rightarrow> string" where
  "exn_str (Exn k m) = m"

text \<open>
  What \<open>os.stat\<close> gives for a file: \<open>st_ctime\<close>, and \<open>st_birthtime\<close> on the
  platforms that have it (\<open>None\<close> is the missing attribute). Timestamps are opaque
  numbers: the code only hands them to \<open>datetime.fromtimestamp\<close>.
\<close>

record stat_result =
  st_ctime :: int
  st_birthtime :: "int option"

text \<open>
  What \<open>Image.open(path)._getexif()\<close> gives: an exception, \<open>None\<close>, or the
  dictionary of tags in its iteration order; a tag is its name after the lookup in
  \<open>TAGS\<close>, a value is a string or something else.
\<close>

datatype exif_tag = DateTimeOriginal | DateTimeDigitized | OtherTag nat

datatype exif_value = Text string | NotText

datatype exif_read = OpenFails | NoExif | ExifDict "(exif_tag \<times> exif_value) list"

text \<open>
  The file system as the code observes it: the paths that exist (finitely many), and
  for each path what \<open>os.stat\<close>, the EXIF reader, \<open>os.listdir\<close>,
  \<open>os.path.isfile\<close> and \<open>os.path.getsize\<close> answer. Paths are looked up as the
  strings the code builds. No consistency between the observations is assumed, so a
  theorem about every file system covers every real one.
\<close>

record filesystem =
  present :: "string list"
  stat_of :: "string \<Rightarrow> exn + stat_result"
  exif_of :: "string \<Rightarrow> exif_read"
  listdir_of :: "string \<Rightarrow> exn + string list"
  isfile_of :: "string \<Rightarrow> bool"
  getsize_of :: "string \<Rightarrow> exn + nat"

definition exists :: "filesystem \<Rightarrow> string \<Rightarrow> bool" where
  "exists fs p = (p \<in> set (present fs))"

text \<open>
  The operations that change the file system, and the platform: \<open>os.name\<close>, the
  working directory, the local-time conversion \<open>datetime.fromtimestamp\<close>, and
  \<open>io_failure\<close>, which decides from the existing paths and the operation whether the
  operation raises (and what).
\<close>

datatype io_op = Makedirs string | Copy2 string string | Move string string

record platform =
  os_name :: string
  getcwd :: string
  fromtimestamp :: "int \<Rightarrow> exn + datetime"
  io_failure :: "string list \<Rightarrow> io_op \<Rightarrow> exn option"

text \<open>
  \<open>os.makedirs(d, exist_ok=True)\<close>, \<open>shutil.copy2(src, dst)\<close> and
  \<open>shutil.move(src, dst)\<close>: on success the directory or the destination exists
  afterwards, and a moved source does not; an operation that raises leaves the paths
  as they were.
\<close>

definition makedirs :: "platform \<Rightarrow> filesystem \<Rightarrow> string \<Rightarrow> exn + filesystem" where
  "makedirs pl fs d =
     (case io_failure pl (present fs) (Makedirs d) of
        Some e \<Rightarrow> Inl e
      | None \<Rightarrow> Inr (if exists fs d then fs else fs\<lparr>present := d # present fs\<rparr>))"

definition copy2 :: "platform \<Rightarrow> filesystem \<Rightarrow> string \<Rightarrow> string \<Rightarrow> exn + filesystem" where
  "copy2 pl fs src dst =
     (case io_failure pl (present fs) (Copy2 src dst) of
        Some e \<Rightarrow> Inl e
      | None \<Rightarrow> Inr (if exists fs dst then fs else fs\<lparr>present := dst # present fs\<rparr>))"

definition move :: "platform \<Rightarrow> filesystem \<Rightarrow> string \<Rightarrow> string \<Rightarrow> exn + filesystem" where
  "move pl fs src dst =
     (case io_failure pl (present fs) (Move src dst) of
        Some e \<Rightarrow> Inl e
      | None \<Rightarrow> Inr (fs\<lparr>present := dst # filter (\<lambda>p. p \<noteq> src \<and> p \<noteq> dst) (present fs)\<rparr>))"

section \<open>Date resolution (organize\_photos.py)\<close>

text \<open>
  \<open>get_exif_date\<close>: the loop over the tags keeps the last \<open>DateTimeOriginal\<close> and
  \<open>DateTimeDigitized\<close> it parsed; a value that does not parse raises inside the
  \<open>try\<close>, and every exception makes the function return \<open>None\<close>.
\<close>

definition parse_value :: "exif_value \<Rightarrow> datetime option" where
  "parse_value v = (case v of Text s \<Rightarrow> strptime s | NotText \<Rightarrow> None)"

fun exif_loop :: "(exif_tag \<times> exif_value) list \<Rightarrow> datetime option \<times> datetime option
    \<Rightarrow> (datetime option \<times> datetime option) option" where
  "exif_loop [] acc = Some acc"
| "exif_loop ((tag, v) # items) (date_taken, date_digitized) =
     (if tag = DateTimeOriginal then
        (case parse_value v of None \<Rightarrow> None
         | Some d \<Rightarrow> exif_loop items (Some d, date_digitized))
      else if tag = DateTimeDigitized then
        (case parse_value v of None \<Rightarrow> None
         | Some d \<Rightarrow> exif_loop items (date_taken, Some d))
      else exif_loop items (date_taken, date_digitized))"

definition get_exif_date :: "filesystem \<Rightarrow> string \<Rightarrow> datetime option" where
  "get_exif_date fs image_path =
     (case exif_of fs image_path of
        OpenFails \<Rightarrow> None
      | NoExif \<Rightarrow> None
      | ExifDict exif_data \<Rightarrow>
          if exif_data = [] then None
          else (case exif_loop exif_data (None, None) of
                  None \<Rightarrow> None
                | Some (date_taken, date_digitized) \<Rightarrow>
                    (case date_taken of Some d \<Rightarrow> Some d | None \<Rightarrow> date_digitized)))"

definition get_file_creation_date :: "platform \<Rightarrow> filesystem \<Rightarrow> string \<Rightarrow> exn + datetime" where
  "get_file_creation_date pl fs file_path =
     (case stat_of fs file_path of
        Inl e \<Rightarrow> Inl e
      | Inr stat \<Rightarrow>
          fromtimestamp pl
            (if os_name pl = ''nt'' then st_ctime stat
             else (case st_birthtime stat of Some t \<Rightarrow> t | None \<Rightarrow> st_ctime stat)))"

definition raw_extensions :: "string list" where
  "raw_extensions = [''.nef'', ''.arw'', ''.dng'', ''.raf'']"

text \<open>The paths \<open>find_matching_raw_file\<close> probes, in the order of its two loops.\<close>

definition raw_candidates :: "string \<Rightarrow> string list" where
  "raw_candidates image_path =
     (let image_dir = parent (Path image_path); base_name = stem_of image_path in
      concat (map (\<lambda>raw_ext. map (\<lambda>ext. path_str (joinpath image_dir (base_name @ ext)))
                [raw_ext, upper raw_ext]) raw_extensions))"

definition find_matching_raw_file :: "filesystem \<Rightarrow> string \<Rightarrow> string option" where
  "find_matching_raw_file fs image_path = find (exists fs) (raw_candidates image_path)"

definition sibling_extensions :: "string list" where
  "sibling_extensions = [''.jpg'', ''.jpeg'', ''.cr2'', ''.png'', ''.xmp'']"

definition get_photo_date :: "platform \<Rightarrow> filesystem \<Rightarrow> string \<Rightarrow> exn + datetime" where
  "get_photo_date pl fs image_path =
     (let ext = lower (suffix_of image_path) in
      if ext \<in> set sibling_extensions then
        (case find_matching_raw_file fs image_path of
           Some raw_file \<Rightarrow>
             if raw_file \<noteq> [] then
               (case get_exif_date fs raw_file of
                  Some exif_date \<Rightarrow> Inr exif_date
                | None \<Rightarrow> get_file_creation_date pl fs raw_file)
             else get_file_creation_date pl fs image_path
         | None \<Rightarrow> get_file_creation_date pl fs image_path)
      else
        (case get_exif_date fs image_path of
           Some exif_date \<Rightarrow> Inr exif_date
         | None \<Rightarrow> get_file_creation_date pl fs image_path))"

section \<open>Filing (organize\_photos.py)\<close>

text \<open>
  The target name on a collision is \<open>base_N.ext\<close>. The loop that looks for a free name
  stops because only finitely many paths exist and the numbered names are all different,
  which is what the next lemmas say.
\<close>

lemma digit_val_digit_char: "d < 10 \<Longrightarrow> digit_val (digit_char d) = Some d"
  by (auto simp: digit_char_def digit_val_def numeral_eq_Suc less_Suc_eq)

lemma digit_char_inj: "a < 10 \<Longrightarrow> b < 10 \<Longrightarrow> digit_char a = digit_char b \<Longrightarrow> a = b"
  by (metis digit_val_digit_char option.inject)

lemma str_nat_nonempty: "str_nat n \<noteq> []"
  by (subst str_nat.simps) simp

lemma str_nat_last: "last (str_nat n) = digit_char (n mod 10)"
  by (subst str_nat.simps) simp

lemma str_nat_butlast: "butlast (str_nat n) = (if n < 10 then [] else str_nat (n div 10))"
  by (subst str_nat.simps) simp

lemma str_nat_inj: "str_nat n = str_nat m \<Longrightarrow> n = m"
proof (induction n arbitrary: m rule: less_induct)
  case (less n)
  from less.prems have l: "digit_char (n mod 10) = digit_char (m mod 10)"
    by (metis str_nat_last)
  then have m10: "n mod 10 = m mod 10" by (intro digit_char_inj) auto
  from less.prems have b: "butlast (str_nat n) = butlast (str_nat m)" by simp
  show ?case
  proof (cases "n < 10")
    case True
    with b have "m < 10"
      using str_nat_nonempty[of "m div 10"] by (auto simp: str_nat_butlast split: if_splits)
    with True m10 show ?thesis by simp
  next
    case False
    with b have m: "\<not> m < 10" and "str_nat (n div 10) = str_nat (m div 10)"
      using str_nat_nonempty[of "n div 10"] by (auto simp: str_nat_butlast split: if_splits)
    then have "n div 10 = m div 10" using False by (intro less.IH) auto
    with m10 show ?thesis by (metis div_mult_mod_eq)
  qed
qed

definition numbered :: "string \<Rightarrow> string \<Rightarrow> string \<Rightarrow> nat \<Rightarrow> string" where
  "numbered target_dir base ext counter = path_join target_dir (base @ ''_'' @ str_nat counter @ ext)"

lemma numbered_inj: "inj (numbered target_dir base ext)"
proof (rule injI)
  fix n m
  assume eq: "numbered target_dir base ext n = numbered target_dir base ext m"
  have sw: "starts_with (base @ ''_'' @ str_nat n @ ext) ''/'' = starts_with (base @ ''_'' @ str_nat m @ ext) ''/''"
    by (cases base) auto
  from eq sw have "str_nat n = str_nat m"
    by (auto simp: numbered_def path_join_def split: if_splits)
  then show "n = m" by (rule str_nat_inj)
qed

lemma finite_numbered: "finite {n. numbered target_dir base ext n \<in> set ps}"
proof -
  have "{n. numbered target_dir base ext n \<in> set ps} = numbered target_dir base ext -` set ps"
    by auto
  then show ?thesis using finite_vimageI[OF finite_set numbered_inj] by metis
qed

function free_target :: "filesystem \<Rightarrow> string \<Rightarrow> string \<Rightarrow> string \<Rightarrow> string \<Rightarrow> nat \<Rightarrow> string" where
  "free_target fs target_dir base ext target_path counter =
     (if exists fs target_path
      then free_target fs target_dir base ext
             (path_join target_dir (base @ ''_'' @ str_nat counter @ ext)) (counter + 1)
      else target_path)"
  by pat_completeness auto
termination
proof (relation "measure (\<lambda>(fs, target_dir, base, ext, target_path, counter).
    card {n. counter \<le> n \<and> numbered target_dir base ext n \<in> set (present fs)}
      + (if exists fs target_path then 1 else 0))")
  show "wf (measure (\<lambda>(fs, target_dir, base, ext, target_path, counter).
    card {n. counter \<le> n \<and> numbered target_dir base ext n \<in> set (present fs)}
      + (if exists fs target_path then 1 else 0)))"
    by simp
next
  fix fs :: filesystem and target_dir base ext target_path :: string and counter :: nat
  assume ex: "exists fs target_path"
  let ?S = "\<lambda>c. {n. c \<le> n \<and> numbered target_dir base ext n \<in> set (present fs)}"
  have fin: "finite (?S counter)"
    by (rule finite_subset[OF _ finite_numbered[of target_dir base ext "present fs"]]) auto
  have "card (?S (counter + 1)) + (if exists fs (numbered target_dir base ext counter) then 1 else 0)
      = card (?S counter)"
  proof (cases "exists fs (numbered target_dir base ext counter)")
    case True
    then have "?S counter = insert counter (?S (counter + 1))"
      by (auto simp: exists_def)
    moreover have "counter \<notin> ?S (counter + 1)" by simp
    moreover have "finite (?S (counter + 1))"
      by (rule finite_subset[OF _ fin]) auto
    ultimately show ?thesis using True by simp
  next
    case False
    then have "?S counter = ?S (counter + 1)"
      by (auto simp: exists_def) (metis Suc_leI le_neq_implies_less)
    with False show ?thesis by simp
  qed
  then show "((fs, target_dir, base, ext,
         path_join target_dir (base @ ''_'' @ str_nat counter @ ext), counter + 1),
        (fs, target_dir, base, ext, target_path, counter))
       \<in> measure (\<lambda>(fs, target_dir, base, ext, target_path, counter).
    card {n. counter \<le> n \<and> numbered target_dir base ext n \<in> set (present fs)}
      + (if exists fs target_path then 1 else 0))"
    using ex by (simp add: numbered_def)
qed

text \<open>The choice of the target path (the \<open>if\<close> around the loop).\<close>

definition choose_target :: "filesystem \<Rightarrow> string \<Rightarrow> string \<Rightarrow> string" where
  "choose_target fs target_dir filename =
     (let target_path = path_join target_dir filename in
      if exists fs target_path
      then (let (base, ext) = splitext filename in free_target fs target_dir base ext target_path 1)
      else target_path)"

text \<open>The statistics dictionary.\<close>

record stats =
  total_found :: nat
  organized :: nat
  skipped :: nat
  errors :: "string list"

text \<open>\<open>os.path.normpath\<close> and \<open>os.path.abspath\<close> (POSIX), and the test that skips a directory.\<close>

definition initial_slashes :: "string \<Rightarrow> nat" where
  "initial_slashes path =
     (if starts_with path ''/''
      then (if starts_with path ''//'' \<and> \<not> starts_with path ''///'' then 2 else 1)
      else 0)"

definition norm_step :: "nat \<Rightarrow> string list \<Rightarrow> string \<Rightarrow> string list" where
  "norm_step slashes new_comps name =
     (if name = [] \<or> name = ''.'' then new_comps
      else if name \<noteq> ''..'' \<or> (slashes = 0 \<and> new_comps = [])
              \<or> (new_comps \<noteq> [] \<and> last new_comps = ''..'')
      then new_comps @ [name]
      else if new_comps \<noteq> [] then butlast new_comps
      else new_comps)"

definition normpath :: "string \<Rightarrow> string" where
  "normpath path =
     (if path = [] then ''.''
      else (let slashes = initial_slashes path;
                comps = foldl (norm_step slashes) [] (split_on CHR ''/'' path);
                joined = replicate slashes CHR ''/'' @ join_sep ''/'' comps
            in if joined = [] then ''.'' else joined))"

definition abspath :: "platform \<Rightarrow> string \<Rightarrow> string" where
  "abspath pl path =
     normpath (if starts_with path ''/'' then path else path_join (getcwd pl) path)"

definition normalized :: "platform \<Rightarrow> string \<Rightarrow> string" where
  "normalized pl folder = lower (normpath (abspath pl folder))"

definition in_destination :: "platform \<Rightarrow> string \<Rightarrow> string \<Rightarrow> bool" where
  "in_destination pl dest_normalized walk_root =
     (let root_normalized = normalized pl walk_root in
      root_normalized = dest_normalized \<or> starts_with root_normalized (dest_normalized @ ''/''))"

definition target_dir_for :: "string \<Rightarrow> string \<Rightarrow> datetime \<Rightarrow> string" where
  "target_dir_for destination_folder file_path photo_date =
     (let file_ext = dropWhile (\<lambda>c. c = CHR ''.'') (upper (suffix_of file_path));
          year_folder = strftime_Y photo_date;
          day_folder = strftime_Ymd photo_date
      in path_join_all destination_folder [year_folder, day_folder, file_ext])"

definition transfer :: "platform \<Rightarrow> bool \<Rightarrow> filesystem \<Rightarrow> string \<Rightarrow> string \<Rightarrow> exn + filesystem" where
  "transfer pl copy_files fs file_path target_path =
     (if copy_files then copy2 pl fs file_path target_path
      else move pl fs file_path target_path)"

text \<open>
  The body of the \<open>try\<close> for one file: the exception it raises, if any, and the file
  system it leaves.
\<close>

definition file_photo :: "platform \<Rightarrow> bool \<Rightarrow> string \<Rightarrow> string \<Rightarrow> string \<Rightarrow> filesystem
    \<Rightarrow> exn option \<times> filesystem" where
  "file_photo pl copy_files destination_folder file_path filename fs =
     (case get_photo_date pl fs file_path of
        Inl e \<Rightarrow> (Some e, fs)
      | Inr photo_date \<Rightarrow>
          (let target_dir = target_dir_for destination_folder file_path photo_date
           in case makedirs pl fs target_dir of
                Inl e \<Rightarrow> (Some e, fs)
              | Inr fs1 \<Rightarrow>
                  (let target_path = choose_target fs1 target_dir filename
                   in case transfer pl copy_files fs1 file_path target_path of
                        Inl e \<Rightarrow> (Some e, fs1)
                      | Inr fs2 \<Rightarrow> (None, fs2))))"

text \<open>
  One iteration of the loop over the files of a directory, one iteration of the loop over
  the directories that \<open>os.walk\<close> yields (\<open>walk\<close> is the sequence of its triples), and
  the whole function: the statistics it returns and the file system it leaves. The
  \<open>print\<close> calls are console narration and are not modelled: they are taken to
  succeed and to change nothing.
\<close>

definition process_file :: "platform \<Rightarrow> bool \<Rightarrow> string \<Rightarrow> string \<Rightarrow> stats \<times> filesystem \<Rightarrow> string
    \<Rightarrow> stats \<times> filesystem" where
  "process_file pl copy_files destination_folder walk_root state filename =
     (let (st, fs) = state; file_path = path_join walk_root filename in
      if \<not> is_image_file file_path then (st, fs)
      else (let st1 = st\<lparr>total_found := total_found st + 1\<rparr> in
            case file_photo pl copy_files destination_folder file_path filename fs of
              (None, fs') \<Rightarrow> (st1\<lparr>organized := organized st1 + 1\<rparr>, fs')
            | (Some e, fs') \<Rightarrow>
                (st1\<lparr>skipped := skipped st1 + 1,
                      errors := errors st1 @ [file_path @ '': '' @ exn_str e]\<rparr>, fs')))"

definition process_directory :: "platform \<Rightarrow> bool \<Rightarrow> string \<Rightarrow> string \<Rightarrow> stats \<times> filesystem
    \<Rightarrow> string \<times> string list \<times> string list \<Rightarrow> stats \<times> filesystem" where
  "process_directory pl copy_files destination_folder dest_normalized state entry =
     (let (walk_root, dirs, files) = entry in
      if in_destination pl dest_normalized walk_root then state
      else foldl (process_file pl copy_files destination_folder walk_root) state files)"

definition organize_photos :: "platform \<Rightarrow> (string \<times> string list \<times> string list) list \<Rightarrow> string
    \<Rightarrow> string option \<Rightarrow> bool \<Rightarrow> filesystem \<Rightarrow> stats \<times> filesystem" where
  "organize_photos pl walk source_folder destination copy_files fs =
     (let destination_folder =
            (case destination of None \<Rightarrow> path_join source_folder ''Organized'' | Some d \<Rightarrow> d);
          stats = \<lparr>total_found = 0, organized = 0, skipped = 0, errors = []\<rparr>;
          dest_normalized = normalized pl destination_folder
      in foldl (process_directory pl copy_files destination_folder dest_normalized) (stats, fs) walk)"


section \<open>Vocabulary of the statements about date resolution\<close>

text \<open>
  The eight extensions \<open>find_matching_raw_file\<close> appends, in the order of its loops;
  the sibling of a path with one of them: the same directory, the path's stem and the
  extension; the date tags of an EXIF dictionary; the file whose dates
  \<open>get_photo_date\<close> uses, the EXIF date it consults, and the timestamp of a
  \<open>stat\<close> result that \<open>get_file_creation_date\<close> converts.
\<close>

definition raw_forms :: "string list" where
  "raw_forms = [''.nef'', ''.NEF'', ''.arw'', ''.ARW'', ''.dng'', ''.DNG'', ''.raf'', ''.RAF'']"

definition raw_sibling :: "string \<Rightarrow> string \<Rightarrow> pure_path" where
  "raw_sibling image_path e =
     \<lparr>anchor = anchor (Path image_path),
      segments = butlast (segments (Path image_path)) @ [stem_of image_path @ e]\<rparr>"

definition date_tags :: "(exif_tag \<times> exif_value) list \<Rightarrow> (exif_tag \<times> exif_value) list" where
  "date_tags items = filter (\<lambda>(tag, v). tag = DateTimeOriginal \<or> tag = DateTimeDigitized) items"

definition date_source :: "filesystem \<Rightarrow> string \<Rightarrow> string" where
  "date_source fs p =
     (if lower (suffix_of p) \<in> set sibling_extensions
      then (case find_matching_raw_file fs p of Some raw \<Rightarrow> raw | None \<Rightarrow> p)
      else p)"

definition creation_time :: "platform \<Rightarrow> stat_result \<Rightarrow> int" where
  "creation_time pl stat =
     (if os_name pl = ''nt'' then st_ctime stat
      else (case st_birthtime stat of Some t \<Rightarrow> t | None \<Rightarrow> st_ctime stat))"

definition consulted_exif :: "filesystem \<Rightarrow> string \<Rightarrow> datetime option" where
  "consulted_exif fs p =
     (if lower (suffix_of p) \<in> set sibling_extensions
      then (case find_matching_raw_file fs p of Some raw \<Rightarrow> get_exif_date fs raw | None \<Rightarrow> None)
      else get_exif_date fs p)"

text \<open>
  Example environments: a platform on which no operation fails, a file system with no
  file at all, and directories with a processed image and RAW files beside it.
\<close>

definition example_date :: datetime where
  "example_date = \<lparr>year = 2024, month = 6, day = 1, hour = 12, minute = 0, second = 0\<rparr>"

definition example_platform :: platform where
  "example_platform =
     \<lparr>os_name = ''posix'', getcwd = ''/home/user'',
      fromtimestamp = (\<lambda>t. Inr example_date), io_failure = (\<lambda>ps operation. None)\<rparr>"

definition one_timestamp_platform :: platform where
  "one_timestamp_platform =
     example_platform\<lparr>fromtimestamp :=
       (\<lambda>t. if t = 0 then Inr example_date else Inl (Exn OverflowError ''timestamp out of range''))\<rparr>"

definition no_such_file :: exn where
  "no_such_file = Exn FileNotFoundError ''[Errno 2] No such file or directory''"

definition empty_fs :: filesystem where
  "empty_fs =
     \<lparr>present = [], stat_of = (\<lambda>p. Inl no_such_file), exif_of = (\<lambda>p. OpenFails),
      listdir_of = (\<lambda>p. Inl no_such_file), isfile_of = (\<lambda>p. False),
      getsize_of = (\<lambda>p. Inl no_such_file)\<rparr>"

definition fs_with :: "string list \<Rightarrow> (string \<times> exif_read) list \<Rightarrow> filesystem" where
  "fs_with ps exifs =
     empty_fs\<lparr>present := ps,
       stat_of := (\<lambda>p. if p \<in> set ps then Inr \<lparr>st_ctime = 0, st_birthtime = None\<rparr> else Inl no_such_file),
       exif_of := (\<lambda>p. case map_of exifs p of Some x \<Rightarrow> x | None \<Rightarrow> OpenFails)\<rparr>"

definition companion_fs :: filesystem where
  "companion_fs =
     fs_with [''photo.jpg'', ''photo.NEF'']
       [(''photo.jpg'', ExifDict [(DateTimeOriginal, Text ''2021:05:04 10:00:00'')]),
        (''photo.NEF'', ExifDict [(OtherTag 271, Text ''NIKON''),
                                  (DateTimeOriginal, Text ''2020:01:02 03:04:05'')])]"

definition two_raws_fs :: filesystem where
  "two_raws_fs = fs_with [''d/photo.jpg'', ''d/photo.arw'', ''d/photo.NEF''] []"

definition upper_name_fs :: filesystem where
  "upper_name_fs = fs_with [''d/photo.jpg'', ''d/PHOTO.nef''] []"

section \<open>Vocabulary of the statements about filing\<close>

text \<open>
  The files of a run in the order the loops visit them: for each directory that is not
  skipped, its files. \<open>run_items\<close> is the loop body applied to such a sequence,
  \<open>state_after k\<close> the statistics and the file system once the first \<open>k\<close> files have
  been handled, and \<open>media_count\<close> the number of media files among them all.
  \<open>accounted\<close> and \<open>grown\<close> are the bookkeeping invariant and the order on
  statistics.
\<close>

definition work_items :: "platform \<Rightarrow> string \<Rightarrow> (string \<times> string list \<times> string list) list
    \<Rightarrow> (string \<times> string) list" where
  "work_items pl dest_normalized walk =
     concat (map (\<lambda>(walk_root, dirs, files).
                    if in_destination pl dest_normalized walk_root then []
                    else map (\<lambda>filename. (walk_root, filename)) files) walk)"

definition destination_of :: "string \<Rightarrow> string option \<Rightarrow> string" where
  "destination_of source_folder destination =
     (case destination of None \<Rightarrow> path_join source_folder ''Organized'' | Some d \<Rightarrow> d)"

definition run_items :: "platform \<Rightarrow> bool \<Rightarrow> string \<Rightarrow> stats \<times> filesystem \<Rightarrow> (string \<times> string) list
    \<Rightarrow> stats \<times> filesystem" where
  "run_items pl copy_files destination_folder state items =
     foldl (\<lambda>s (walk_root, filename). process_file pl copy_files destination_folder walk_root s filename)
       state items"

definition state_after :: "nat \<Rightarrow> platform \<Rightarrow> (string \<times> string list \<times> string list) list \<Rightarrow> string
    \<Rightarrow> string option \<Rightarrow> bool \<Rightarrow> filesystem \<Rightarrow> stats \<times> filesystem" where
  "state_after k pl walk source_folder destination copy_files fs =
     run_items pl copy_files (destination_of source_folder destination)
       (\<lparr>total_found = 0, organized = 0, skipped = 0, errors = []\<rparr>, fs)
       (take k (work_items pl (normalized pl (destination_of source_folder destination)) walk))"












section \<open>Lemmas about strings and paths\<close>

lemma path_str_nonempty: "path_str pp \<noteq> []"
  by (simp add: path_str_def Let_def)

lemma split_on_nonempty: "split_on c xs \<noteq> []"
  by (induction xs) (auto split: list.splits)

lemma split_on_no_sep: "w \<in> set (split_on c xs) \<Longrightarrow> c \<notin> set w"
proof (induction xs arbitrary: w)
  case Nil
  then show ?case by simp
next
  case (Cons x xs)
  show ?case
  proof (cases "x = c")
    case True
    with Cons show ?thesis by auto
  next
    case False
    obtain v vs where s: "split_on c xs = v # vs"
      using split_on_nonempty[of c xs] by (cases "split_on c xs") auto
    from Cons.prems False s have "w = x # v \<or> w \<in> set vs" by simp
    then show ?thesis
    proof
      assume "w = x # v"
      moreover have "c \<notin> set v" using Cons.IH[of v] s by simp
      ultimately show ?thesis using False by auto
    next
      assume "w \<in> set vs"
      then have "w \<in> set (split_on c xs)" using s by simp
      then show ?thesis by (rule Cons.IH)
    qed
  qed
qed

lemma split_on_plain: "c \<notin> set w \<Longrightarrow> split_on c w = [w]"
  by (induction w) auto

lemma split_on_append: "c \<notin> set w \<Longrightarrow> split_on c (w @ c # rest) = w # split_on c rest"
  by (induction w) auto

lemma split_on_join:
  "ws \<noteq> [] \<Longrightarrow> \<forall>w \<in> set ws. c \<notin> set w \<Longrightarrow> split_on c (join_sep [c] ws) = ws"
proof (induction ws rule: induct_list012)
  case 1 then show ?case by simp
next
  case (2 p) then show ?case by (simp add: split_on_plain)
next
  case (3 p q ps)
  then show ?case by (simp add: split_on_append)
qed


lemma starts_with_single: "starts_with s [c] = (s \<noteq> [] \<and> hd s = c)"
  by (cases s) auto

lemma ends_with_single: "ends_with s [c] = (s \<noteq> [] \<and> last s = c)"
  by (cases s rule: rev_cases) (auto simp: ends_with_def)

lemma join_sep_snoc: "ws \<noteq> [] \<Longrightarrow> join_sep sep (ws @ [n]) = join_sep sep ws @ sep @ n"
  by (induction ws rule: induct_list012) auto

lemma join_sep_Cons: "ws \<noteq> [] \<Longrightarrow> join_sep sep (w # ws) = w @ sep @ join_sep sep ws"
  by (cases ws) auto

lemma join_sep_eq_Nil: "join_sep sep ws = [] \<Longrightarrow> \<forall>w \<in> set ws. w \<noteq> [] \<Longrightarrow> ws = []"
  by (induction ws rule: induct_list012) auto

lemma hd_join_sep: "ws \<noteq> [] \<Longrightarrow> hd ws \<noteq> [] \<Longrightarrow> hd (join_sep sep ws) = hd (hd ws)"
  by (induction ws rule: induct_list012) auto

lemma last_join_sep: "ws \<noteq> [] \<Longrightarrow> last ws \<noteq> [] \<Longrightarrow> last (join_sep sep ws) = last (last ws)"
proof (cases ws rule: rev_cases)
  case Nil
  assume "ws \<noteq> []"
  with Nil show ?thesis by simp
next
  case (snoc ws' w)
  assume "last ws \<noteq> []"
  with snoc have "w \<noteq> []" by simp
  then show ?thesis using snoc by (cases "ws' = []") (simp_all add: join_sep_snoc)
qed

lemma join_sep_nonempty: "ws \<noteq> [] \<Longrightarrow> hd ws \<noteq> [] \<Longrightarrow> join_sep sep ws \<noteq> []"
  by (induction ws rule: induct_list012) auto

lemma splitroot_anchor:
  assumes "a \<in> set [[], ''/'', ''//'']" and "rel = [] \<or> hd rel \<noteq> CHR ''/''"
  shows "splitroot (a @ rel) = (a, rel)"
  using assms by (cases rel) (auto simp: splitroot_def)

lemma good_name_hd: "good_name n \<Longrightarrow> hd n \<noteq> CHR ''/''"
  by (cases n) (auto simp: good_name_def)

lemma good_name_last: "good_name n \<Longrightarrow> last n \<noteq> CHR ''/''"
  by (cases n rule: rev_cases) (auto simp: good_name_def)

lemma Path_anchor_join:
  assumes a: "a \<in> set [[], ''/'', ''//'']" and g: "list_all good_name segs"
  shows "Path (a @ join_sep ''/'' segs) = \<lparr>anchor = a, segments = segs\<rparr>"
proof (cases "segs = []")
  case True
  then show ?thesis using a by (auto simp: Path_def splitroot_def)
next
  case False
  from g have ne: "\<forall>w \<in> set segs. w \<noteq> []" and ns: "\<forall>w \<in> set segs. CHR ''/'' \<notin> set w"
    by (auto simp: list_all_iff good_name_def)
  from False g have "good_name (hd segs)" by (cases segs) auto
  then have "hd (join_sep ''/'' segs) \<noteq> CHR ''/''"
    using False ne by (simp add: hd_join_sep good_name_hd)
  then have sr: "splitroot (a @ join_sep ''/'' segs) = (a, join_sep ''/'' segs)"
    using a by (intro splitroot_anchor) auto
  have sp: "split_on CHR ''/'' (join_sep ''/'' segs) = segs"
    using False ns by (rule split_on_join)
  have "filter (\<lambda>x. x \<noteq> [] \<and> x \<noteq> ''.'') segs = segs"
    using g by (auto simp: list_all_iff good_name_def filter_id_conv)
  with sr sp show ?thesis by (simp add: Path_def)
qed

lemma Path_wf: "wf_path (Path p)"
proof -
  obtain r rel where sr: "splitroot p = (r, rel)" by (cases "splitroot p")
  then have "r \<in> set [[], ''/'', ''//'']" by (auto simp: splitroot_def split: if_splits)
  moreover have "list_all good_name (filter (\<lambda>x. x \<noteq> [] \<and> x \<noteq> ''.'') (split_on CHR ''/'' rel))"
    by (auto simp: list_all_iff good_name_def dest: split_on_no_sep)
  ultimately show ?thesis using sr by (simp add: Path_def wf_path_def)
qed

lemma parent_wf: "wf_path pp \<Longrightarrow> wf_path (parent pp)"
  by (auto simp: wf_path_def parent_def list_all_iff dest: in_set_butlastD)

lemma Path_path_str: "wf_path pp \<Longrightarrow> Path (path_str pp) = pp"
proof -
  assume wf: "wf_path pp"
  then have a: "anchor pp \<in> set [[], ''/'', ''//'']" and g: "list_all good_name (segments pp)"
    by (auto simp: wf_path_def)
  show ?thesis
  proof (cases "anchor pp @ join_sep ''/'' (segments pp) = []")
    case True
    then have "anchor pp = []" and "join_sep ''/'' (segments pp) = []" by auto
    moreover from this g have "segments pp = []"
      by (intro join_sep_eq_Nil) (auto simp: list_all_iff good_name_def)
    ultimately show ?thesis by (simp add: path_str_def Path_def splitroot_def)
  next
    case False
    then have "path_str pp = anchor pp @ join_sep ''/'' (segments pp)" by (simp add: path_str_def)
    then show ?thesis using Path_anchor_join[OF a g] by simp
  qed
qed

lemma joinpath_good:
  assumes wf: "wf_path pp" and n: "good_name n"
  shows "joinpath pp n = pp\<lparr>segments := segments pp @ [n]\<rparr>"
proof -
  from wf have a: "anchor pp \<in> set [[], ''/'', ''//'']" and g: "list_all good_name (segments pp)"
    by (auto simp: wf_path_def)
  from n have sw: "\<not> starts_with n ''/''" by (simp add: starts_with_single good_name_hd)
  from g n have g': "list_all good_name (segments pp @ [n])" by simp
  show ?thesis
  proof (cases "segments pp = []")
    case True
    show ?thesis
    proof (cases "anchor pp = []")
      case True
      with \<open>segments pp = []\<close> have "path_join (path_str pp) n = ''./'' @ n"
        using sw by (simp add: path_str_def path_join_def ends_with_single)
      moreover have "Path (''./'' @ n) = \<lparr>anchor = [], segments = [n]\<rparr>"
        using n by (simp add: Path_def splitroot_def split_on_plain good_name_def)
      ultimately show ?thesis using True \<open>segments pp = []\<close> by (simp add: joinpath_def)
    next
      case False
      with a \<open>segments pp = []\<close> have "path_join (path_str pp) n = anchor pp @ join_sep ''/'' [n]"
        using sw by (auto simp: path_str_def path_join_def ends_with_single)
      moreover have "Path (anchor pp @ join_sep ''/'' [n]) = \<lparr>anchor = anchor pp, segments = [n]\<rparr>"
        using a n by (intro Path_anchor_join) auto
      ultimately show ?thesis using \<open>segments pp = []\<close> by (simp add: joinpath_def)
    qed
  next
    case False
    from False g have gl: "good_name (last (segments pp))" by (auto simp: list_all_iff)
    from False g have gh: "hd (segments pp) \<noteq> []" by (cases "segments pp") (auto simp: good_name_def)
    have jn: "join_sep ''/'' (segments pp) \<noteq> []" using False gh by (rule join_sep_nonempty)
    have "last (join_sep ''/'' (segments pp)) = last (last (segments pp))"
      using False gl by (intro last_join_sep) (auto simp: good_name_def)
    then have "last (anchor pp @ join_sep ''/'' (segments pp)) \<noteq> CHR ''/''"
      using jn gl by (simp add: good_name_last)
    then have "path_join (path_str pp) n = anchor pp @ join_sep ''/'' (segments pp) @ ''/'' @ n"
      using sw jn by (simp add: path_str_def path_join_def ends_with_single)
    also have "\<dots> = anchor pp @ join_sep ''/'' (segments pp @ [n])"
      using False by (simp add: join_sep_snoc)
    finally have "joinpath pp n = \<lparr>anchor = anchor pp, segments = segments pp @ [n]\<rparr>"
      using Path_anchor_join[OF a g'] by (simp add: joinpath_def)
    then show ?thesis by simp
  qed
qed

section \<open>Lemmas about date resolution\<close>

lemma rfind_notin: "c \<notin> set e \<Longrightarrow> rfind c e = -1"
  by (induction e) (auto simp: Let_def)

lemma rfind_last_occurrence: "c \<notin> set e \<Longrightarrow> rfind c (s @ c # e) = int (length s)"
  by (induction s) (auto simp: Let_def rfind_notin)


lemma raw_forms_eq: "concat (map (\<lambda>raw_ext. [raw_ext, upper raw_ext]) raw_extensions) = raw_forms"
  by (simp add: raw_extensions_def raw_forms_def upper_def upper_char_def translate_def)

lemma raw_form_shape:
  "e \<in> set raw_forms \<Longrightarrow> \<exists>e3. e = CHR ''.'' # e3 \<and> CHR ''.'' \<notin> set e3 \<and> CHR ''/'' \<notin> set e3 \<and> length e3 = 3"
  by (auto simp: raw_forms_def)

lemma name_suffix_form:
  assumes "e \<in> set raw_forms"
  shows "name_suffix (b @ e) = (if b = [] then [] else e)" and "name_stem (b @ e) = (if b = [] then e else b)"
proof -
  from assms obtain e3 where e: "e = CHR ''.'' # e3" "CHR ''.'' \<notin> set e3" "length e3 = 3"
    using raw_form_shape by blast
  then have r: "rfind CHR ''.'' (b @ e) = int (length b)" by (simp add: rfind_last_occurrence)
  have "name_suffix (b @ e) =
      (if 0 < int (length b) \<and> int (length b) < int (length (b @ e)) - 1
       then drop (nat (int (length b))) (b @ e) else [])"
    by (simp only: name_suffix_def r Let_def)
  then show "name_suffix (b @ e) = (if b = [] then [] else e)"
    using e by auto
  have "name_stem (b @ e) =
      (if 0 < int (length b) \<and> int (length b) < int (length (b @ e)) - 1
       then take (nat (int (length b))) (b @ e) else b @ e)"
    by (simp only: name_stem_def r Let_def)
  then show "name_stem (b @ e) = (if b = [] then e else b)"
    using e by auto
qed

lemma path_name_no_sep: "CHR ''/'' \<notin> set (path_name (Path p))"
proof (cases "segments (Path p) = []")
  case True
  then show ?thesis by (simp add: path_name_def)
next
  case False
  have "list_all good_name (segments (Path p))" using Path_wf[of p] by (simp add: wf_path_def)
  with False have "good_name (last (segments (Path p)))" by (simp add: list_all_iff)
  with False show ?thesis by (simp add: path_name_def good_name_def)
qed

lemma stem_of_no_sep: "CHR ''/'' \<notin> set (stem_of p)"
  using path_name_no_sep[of p]
  by (auto simp: stem_of_def name_stem_def Let_def dest: in_set_takeD)

lemma good_name_stem_form: "e \<in> set raw_forms \<Longrightarrow> good_name (stem_of p @ e)"
  using stem_of_no_sep[of p] by (auto simp: good_name_def raw_forms_def)


lemma raw_sibling_wf: "e \<in> set raw_forms \<Longrightarrow> wf_path (raw_sibling p e)"
  using parent_wf[OF Path_wf[of p]] good_name_stem_form[of e p]
  by (simp add: wf_path_def raw_sibling_def parent_def)

lemma raw_candidates_eq: "raw_candidates p = map (\<lambda>e. path_str (raw_sibling p e)) raw_forms"
proof -
  have "\<And>e. e \<in> set raw_forms \<Longrightarrow> joinpath (parent (Path p)) (stem_of p @ e) = raw_sibling p e"
    using joinpath_good[OF parent_wf[OF Path_wf[of p]] good_name_stem_form]
    by (simp add: raw_sibling_def parent_def)
  then have "map (\<lambda>e. path_str (joinpath (parent (Path p)) (stem_of p @ e))) raw_forms
      = map (\<lambda>e. path_str (raw_sibling p e)) raw_forms"
    by simp
  moreover have "raw_candidates p = map (\<lambda>e. path_str (joinpath (parent (Path p)) (stem_of p @ e)))
      (concat (map (\<lambda>raw_ext. [raw_ext, upper raw_ext]) raw_extensions))"
    by (simp add: raw_candidates_def Let_def map_concat comp_def)
  ultimately show ?thesis by (simp add: raw_forms_eq)
qed

lemma candidate_parts:
  assumes "e \<in> set raw_forms"
  shows "parent (Path (path_str (raw_sibling p e))) = parent (Path p)"
    and "path_name (Path (path_str (raw_sibling p e))) = stem_of p @ e"
    and "suffix_of (path_str (raw_sibling p e)) = (if stem_of p = [] then [] else e)"
proof -
  have P: "Path (path_str (raw_sibling p e)) = raw_sibling p e"
    using raw_sibling_wf[OF assms] by (rule Path_path_str)
  show "parent (Path (path_str (raw_sibling p e))) = parent (Path p)"
    unfolding P by (simp add: raw_sibling_def parent_def)
  show n: "path_name (Path (path_str (raw_sibling p e))) = stem_of p @ e"
    unfolding P by (simp add: raw_sibling_def path_name_def)
  show "suffix_of (path_str (raw_sibling p e)) = (if stem_of p = [] then [] else e)"
    using name_suffix_form(1)[OF assms] by (simp add: suffix_of_def n)
qed

lemma lower_raw_forms: "e \<in> set raw_forms \<Longrightarrow> lower e \<in> set raw_extensions"
  by (auto simp: raw_forms_def raw_extensions_def lower_def lower_char_def translate_def)

lemma candidate_not_sibling:
  assumes "c \<in> set (raw_candidates p)"
  shows "lower (suffix_of c) \<notin> set sibling_extensions"
proof -
  from assms obtain e where e: "e \<in> set raw_forms" and c: "c = path_str (raw_sibling p e)"
    by (auto simp: raw_candidates_eq)
  have "lower (suffix_of c) = [] \<or> lower (suffix_of c) \<in> set raw_extensions"
    using candidate_parts(3)[OF e, of p] lower_raw_forms[OF e] by (auto simp: c lower_def)
  then show ?thesis by (auto simp: raw_extensions_def sibling_extensions_def)
qed

lemma find_matching_raw_file_in:
  "find_matching_raw_file fs p = Some r \<Longrightarrow> r \<in> set (raw_candidates p) \<and> exists fs r"
  by (auto simp: find_matching_raw_file_def find_Some_iff)

lemma find_matching_raw_file_nonempty: "find_matching_raw_file fs p = Some r \<Longrightarrow> r \<noteq> []"
proof -
  assume "find_matching_raw_file fs p = Some r"
  then have "r \<in> set (raw_candidates p)" by (simp add: find_matching_raw_file_in)
  then obtain e where "r = path_str (raw_sibling p e)" by (auto simp: raw_candidates_eq)
  then show ?thesis by (simp add: path_str_nonempty)
qed

lemma find_matching_raw_file_exif_update [simp]:
  "find_matching_raw_file (fs\<lparr>exif_of := f\<rparr>) p = find_matching_raw_file fs p"
  by (simp add: find_matching_raw_file_def exists_def cong: find_cong)

lemma get_photo_date_sibling:
  assumes "lower (suffix_of p) \<in> set sibling_extensions"
  shows "get_photo_date pl fs p =
     (case find_matching_raw_file fs p of
        Some raw \<Rightarrow> (case get_exif_date fs raw of Some d \<Rightarrow> Inr d
                      | None \<Rightarrow> get_file_creation_date pl fs raw)
      | None \<Rightarrow> get_file_creation_date pl fs p)"
  using assms find_matching_raw_file_nonempty[of fs p]
  by (auto simp: get_photo_date_def Let_def split: option.splits)

lemma own_exif_not_consulted:
  assumes s: "lower (suffix_of p) \<in> set sibling_extensions"
  shows "get_photo_date pl (fs\<lparr>exif_of := (exif_of fs)(p := x)\<rparr>) p = get_photo_date pl fs p"
proof (cases "find_matching_raw_file fs p")
  case None
  then show ?thesis using s
    by (simp add: get_photo_date_sibling get_file_creation_date_def)
next
  case (Some r)
  then have "r \<in> set (raw_candidates p)" by (simp add: find_matching_raw_file_in)
  then have "r \<noteq> p" using candidate_not_sibling s by blast
  then have "get_exif_date (fs\<lparr>exif_of := (exif_of fs)(p := x)\<rparr>) r = get_exif_date fs r"
    by (simp add: get_exif_date_def)
  then show ?thesis using s Some
    by (simp add: get_photo_date_sibling get_file_creation_date_def split: option.splits)
qed

lemma exif_loop_date_tags: "exif_loop items acc = exif_loop (date_tags items) acc"
  by (induction items acc rule: exif_loop.induct) (auto simp: date_tags_def split: option.splits)

lemma strptime_2020: "strptime ''2020:01:02 03:04:05'' =
    Some \<lparr>year = 2020, month = 1, day = 2, hour = 3, minute = 4, second = 5\<rparr>"
  by code_simp

lemma folders_2020:
  "strftime_Y \<lparr>year = 2020, month = 1, day = 2, hour = 3, minute = 4, second = 5\<rparr> = ''2020''
   \<and> strftime_Ymd \<lparr>year = 2020, month = 1, day = 2, hour = 3, minute = 4, second = 5\<rparr> = ''20200102''"
  by code_simp

lemma get_exif_date_original_only:
  assumes "exif_of fs raw = ExifDict items"
    and "date_tags items = [(DateTimeOriginal, Text s)]"
  shows "get_exif_date fs raw = strptime s"
proof -
  from assms(2) have "items \<noteq> []" by (auto simp: date_tags_def)
  moreover have "exif_loop items (None, None) = exif_loop [(DateTimeOriginal, Text s)] (None, None)"
    using exif_loop_date_tags[of items] assms(2) by simp
  ultimately show ?thesis using assms(1)
    by (simp add: get_exif_date_def parse_value_def split: option.splits)
qed

section \<open>Claims about date resolution\<close>

text \<open>
  Claim C1. For a path whose lower-cased extension is \<open>.jpg\<close>, \<open>.jpeg\<close>, \<open>.cr2\<close>,
  \<open>.png\<close> or \<open>.xmp\<close>, \<open>get_photo_date\<close> returns the companion RAW file's EXIF date
  when a companion exists and has one, the companion's file-system creation date when it
  has none, and the path's own file-system creation date when there is no companion. The
  path's own EXIF data is never consulted: changing what the EXIF reader answers for the
  path changes nothing. In particular, when the companion's only date tag is
  \<open>DateTimeOriginal = 2020:01:02 03:04:05\<close>, the year folder is \<open>2020\<close> and the day
  folder is \<open>20200102\<close>. The example is \<open>photo.jpg\<close> beside \<open>photo.NEF\<close>, where
  \<open>photo.jpg\<close> itself carries an EXIF date of 2021.
\<close>

theorem get_photo_date_uses_companion:
  "lower (suffix_of p) \<in> set sibling_extensions \<longrightarrow>
     get_photo_date pl fs p =
       (case find_matching_raw_file fs p of
          Some raw \<Rightarrow> (case get_exif_date fs raw of Some d \<Rightarrow> Inr d
                        | None \<Rightarrow> get_file_creation_date pl fs raw)
        | None \<Rightarrow> get_file_creation_date pl fs p)
     \<and> get_photo_date pl (fs\<lparr>exif_of := (exif_of fs)(p := x)\<rparr>) p = get_photo_date pl fs p
     \<and> (\<forall>raw items.
          find_matching_raw_file fs p = Some raw \<and> exif_of fs raw = ExifDict items
          \<and> date_tags items = [(DateTimeOriginal, Text ''2020:01:02 03:04:05'')]
          \<longrightarrow> (\<exists>d. get_photo_date pl fs p = Inr d
                 \<and> strftime_Y d = ''2020'' \<and> strftime_Ymd d = ''20200102''))"
proof (intro impI conjI allI)
  assume s: "lower (suffix_of p) \<in> set sibling_extensions"
  show "get_photo_date pl fs p =
       (case find_matching_raw_file fs p of
          Some raw \<Rightarrow> (case get_exif_date fs raw of Some d \<Rightarrow> Inr d
                        | None \<Rightarrow> get_file_creation_date pl fs raw)
        | None \<Rightarrow> get_file_creation_date pl fs p)"
    using s by (rule get_photo_date_sibling)
  show "get_photo_date pl (fs\<lparr>exif_of := (exif_of fs)(p := x)\<rparr>) p = get_photo_date pl fs p"
    using s by (rule own_exif_not_consulted)
  fix raw items
  assume a: "find_matching_raw_file fs p = Some raw \<and> exif_of fs raw = ExifDict items
          \<and> date_tags items = [(DateTimeOriginal, Text ''2020:01:02 03:04:05'')]"
  then have "get_exif_date fs raw = strptime ''2020:01:02 03:04:05''"
    by (intro get_exif_date_original_only) auto
  then have "get_photo_date pl fs p =
      Inr \<lparr>year = 2020, month = 1, day = 2, hour = 3, minute = 4, second = 5\<rparr>"
    using a s by (simp add: get_photo_date_sibling strptime_2020)
  then show "\<exists>d. get_photo_date pl fs p = Inr d
                 \<and> strftime_Y d = ''2020'' \<and> strftime_Ymd d = ''20200102''"
    using folders_2020 by simp
qed

lemma companion_fs_raw: "find_matching_raw_file companion_fs ''photo.jpg'' = Some ''photo.NEF''"
  by code_simp

lemma photo_jpg_sibling: "lower (suffix_of ''photo.jpg'') \<in> set sibling_extensions"
  by code_simp

theorem get_photo_date_uses_companion_witness:
  "lower (suffix_of ''photo.jpg'') \<in> set sibling_extensions
   \<and> find_matching_raw_file companion_fs ''photo.jpg'' = Some ''photo.NEF''
   \<and> get_exif_date companion_fs ''photo.jpg'' =
       Some \<lparr>year = 2021, month = 5, day = 4, hour = 10, minute = 0, second = 0\<rparr>
   \<and> (\<exists>d. get_photo_date example_platform companion_fs ''photo.jpg'' = Inr d
         \<and> strftime_Y d = ''2020'' \<and> strftime_Ymd d = ''20200102'')"
proof -
  have e: "exif_of companion_fs ''photo.NEF'' =
      ExifDict [(OtherTag 271, Text ''NIKON''), (DateTimeOriginal, Text ''2020:01:02 03:04:05'')]"
    by (simp add: companion_fs_def fs_with_def)
  have d: "date_tags [(OtherTag 271, Text ''NIKON''), (DateTimeOriginal, Text ''2020:01:02 03:04:05'')]
      = [(DateTimeOriginal, Text ''2020:01:02 03:04:05'')]"
    by (simp add: date_tags_def)
  have own: "get_exif_date companion_fs ''photo.jpg'' =
       Some \<lparr>year = 2021, month = 5, day = 4, hour = 10, minute = 0, second = 0\<rparr>"
    by code_simp
  show ?thesis
    using get_photo_date_uses_companion[of "''photo.jpg''" example_platform companion_fs]
      photo_jpg_sibling companion_fs_raw e d own
    by blast
qed

lemma plain_jpg_source: "date_source (fs_with [''plain.jpg''] []) ''plain.jpg'' = ''plain.jpg''"
  by code_simp

lemma get_file_creation_date_eq:
  "get_file_creation_date pl fs q =
     (case stat_of fs q of Inl e \<Rightarrow> Inl e | Inr st \<Rightarrow> fromtimestamp pl (creation_time pl st))"
  by (simp add: get_file_creation_date_def creation_time_def split: sum.splits)

lemma get_photo_date_eq:
  "get_photo_date pl fs p =
     (case consulted_exif fs p of
        Some d \<Rightarrow> Inr d
      | None \<Rightarrow> get_file_creation_date pl fs (date_source fs p))"
proof (cases "lower (suffix_of p) \<in> set sibling_extensions")
  case True
  then show ?thesis
    by (simp add: get_photo_date_sibling date_source_def consulted_exif_def split: option.splits)
next
  case False
  then show ?thesis
    by (simp add: get_photo_date_def date_source_def consulted_exif_def Let_def split: option.splits)
qed

text \<open>
  Claim C7, as amended. \<open>get_photo_date\<close> is a function, so a path resolves to at most
  one date. The file whose dates it uses is the companion RAW when one is found for a
  sibling-eligible path, and the path itself otherwise; the EXIF date it consults is that
  companion's, none for a sibling-eligible path without companion, and the path's own
  for every other extension. When this EXIF date is present it is returned. When it is
  absent, and \<open>os.stat\<close> succeeds on the file and the creation timestamp of this very
  file converts, the converted date is returned. The call raises exactly when the EXIF
  date is absent and either \<open>os.stat\<close> fails on the file, with that exception, or the
  conversion of the file's creation timestamp fails, with that one. The claim as stated
  fails: for a path that does not exist the call raises. The example platform converts
  the timestamp 0 only.
\<close>

theorem get_photo_date_returns_or_raises:
  "(\<forall>d. consulted_exif fs p = Some d \<longrightarrow> get_photo_date pl fs p = Inr d)
   \<and> (\<forall>st d. consulted_exif fs p = None \<and> stat_of fs (date_source fs p) = Inr st
          \<and> fromtimestamp pl (creation_time pl st) = Inr d
        \<longrightarrow> get_photo_date pl fs p = Inr d)
   \<and> ((\<exists>st d. stat_of fs (date_source fs p) = Inr st \<and> fromtimestamp pl (creation_time pl st) = Inr d)
        \<longrightarrow> (\<exists>d. get_photo_date pl fs p = Inr d))
   \<and> (\<forall>e. get_photo_date pl fs p = Inl e \<longleftrightarrow>
          consulted_exif fs p = None
          \<and> (stat_of fs (date_source fs p) = Inl e
              \<or> (\<exists>st. stat_of fs (date_source fs p) = Inr st
                    \<and> fromtimestamp pl (creation_time pl st) = Inl e)))"
proof (intro conjI allI impI)
  fix d
  assume "consulted_exif fs p = Some d"
  then show "get_photo_date pl fs p = Inr d" by (simp add: get_photo_date_eq)
next
  fix st d
  assume "consulted_exif fs p = None \<and> stat_of fs (date_source fs p) = Inr st
          \<and> fromtimestamp pl (creation_time pl st) = Inr d"
  then show "get_photo_date pl fs p = Inr d"
    by (simp add: get_photo_date_eq get_file_creation_date_eq)
next
  assume "\<exists>st d. stat_of fs (date_source fs p) = Inr st \<and> fromtimestamp pl (creation_time pl st) = Inr d"
  then show "\<exists>d. get_photo_date pl fs p = Inr d"
    by (cases "consulted_exif fs p") (auto simp: get_photo_date_eq get_file_creation_date_eq)
next
  fix e
  show "get_photo_date pl fs p = Inl e \<longleftrightarrow>
          consulted_exif fs p = None
          \<and> (stat_of fs (date_source fs p) = Inl e
              \<or> (\<exists>st. stat_of fs (date_source fs p) = Inr st
                    \<and> fromtimestamp pl (creation_time pl st) = Inl e))"
    by (cases "consulted_exif fs p"; cases "stat_of fs (date_source fs p)")
      (auto simp: get_photo_date_eq get_file_creation_date_eq)
qed

theorem get_photo_date_returns_or_raises_witness:
  "consulted_exif (fs_with [''plain.jpg''] []) ''plain.jpg'' = None
   \<and> stat_of (fs_with [''plain.jpg''] []) (date_source (fs_with [''plain.jpg''] []) ''plain.jpg'')
       = Inr \<lparr>st_ctime = 0, st_birthtime = None\<rparr>
   \<and> fromtimestamp one_timestamp_platform
        (creation_time one_timestamp_platform \<lparr>st_ctime = 0, st_birthtime = None\<rparr>) = Inr example_date
   \<and> fromtimestamp one_timestamp_platform 1 = Inl (Exn OverflowError ''timestamp out of range'')
   \<and> get_photo_date one_timestamp_platform (fs_with [''plain.jpg''] []) ''plain.jpg'' = Inr example_date
   \<and> consulted_exif companion_fs ''photo.jpg''
       = Some \<lparr>year = 2020, month = 1, day = 2, hour = 3, minute = 4, second = 5\<rparr>
   \<and> get_photo_date one_timestamp_platform companion_fs ''photo.jpg''
       = Inr \<lparr>year = 2020, month = 1, day = 2, hour = 3, minute = 4, second = 5\<rparr>
   \<and> consulted_exif empty_fs ''missing.jpg'' = None
   \<and> stat_of empty_fs (date_source empty_fs ''missing.jpg'') = Inl no_such_file
   \<and> get_photo_date one_timestamp_platform empty_fs ''missing.jpg'' = Inl no_such_file"
proof -
  have c: "consulted_exif (fs_with [''plain.jpg''] []) ''plain.jpg'' = None" by code_simp
  have s: "stat_of (fs_with [''plain.jpg''] []) (date_source (fs_with [''plain.jpg''] []) ''plain.jpg'')
       = Inr \<lparr>st_ctime = 0, st_birthtime = None\<rparr>"
    by (simp add: plain_jpg_source) (simp add: fs_with_def)
  have f: "fromtimestamp one_timestamp_platform
        (creation_time one_timestamp_platform \<lparr>st_ctime = 0, st_birthtime = None\<rparr>) = Inr example_date"
    by (simp add: one_timestamp_platform_def example_platform_def creation_time_def)
  have f1: "fromtimestamp one_timestamp_platform 1 = Inl (Exn OverflowError ''timestamp out of range'')"
    by (simp add: one_timestamp_platform_def)
  have ce: "consulted_exif companion_fs ''photo.jpg''
       = Some \<lparr>year = 2020, month = 1, day = 2, hour = 3, minute = 4, second = 5\<rparr>"
    by code_simp
  have cm: "consulted_exif empty_fs ''missing.jpg'' = None" by code_simp
  have sm: "stat_of empty_fs (date_source empty_fs ''missing.jpg'') = Inl no_such_file"
    by (simp add: empty_fs_def)
  note t1 = get_photo_date_returns_or_raises[of "fs_with [''plain.jpg''] []" "''plain.jpg''" one_timestamp_platform]
  note t2 = get_photo_date_returns_or_raises[of companion_fs "''photo.jpg''" one_timestamp_platform]
  note t3 = get_photo_date_returns_or_raises[of empty_fs "''missing.jpg''" one_timestamp_platform]
  from t1 c s f have r1: "get_photo_date one_timestamp_platform (fs_with [''plain.jpg''] []) ''plain.jpg'' = Inr example_date"
    by blast
  from t2 ce have r2: "get_photo_date one_timestamp_platform companion_fs ''photo.jpg''
       = Inr \<lparr>year = 2020, month = 1, day = 2, hour = 3, minute = 4, second = 5\<rparr>"
    by blast
  from t3 cm sm have r3: "get_photo_date one_timestamp_platform empty_fs ''missing.jpg'' = Inl no_such_file"
    by blast
  from c s f f1 r1 ce r2 cm sm r3 show ?thesis by blast
qed

text \<open>
  Claim C7, counterexample: on a file system without the file, \<open>get_photo_date\<close> raises
  \<open>FileNotFoundError\<close> to its caller.
\<close>

theorem get_photo_date_raises_counterexample:
  "get_photo_date example_platform empty_fs ''missing.jpg'' = Inl no_such_file"
proof -
  have s: "lower (suffix_of ''missing.jpg'') \<in> set sibling_extensions"
    by code_simp
  have n: "find_matching_raw_file empty_fs ''missing.jpg'' = None"
    by code_simp
  have "get_file_creation_date example_platform empty_fs ''missing.jpg'' = Inl no_such_file"
    by (simp add: get_file_creation_date_def empty_fs_def)
  with n show ?thesis by (simp add: get_photo_date_sibling[OF s])
qed

text \<open>
  Claim C8, as amended. \<open>find_matching_raw_file\<close> probes exactly eight paths: the
  directory of the input path, its stem exactly as written, and the extensions
  \<open>.nef\<close>, \<open>.arw\<close>, \<open>.dng\<close>, \<open>.raf\<close> in this order, each in lower case and then
  in upper case. Every probed path lies in the input path's directory. The result is the
  first probed path that exists, and \<open>None\<close> exactly when none exists. The code folds
  no case in the name.
\<close>

theorem find_matching_raw_file_first_candidate:
  "raw_candidates p =
     map (\<lambda>e. path_str (raw_sibling p e))
       [''.nef'', ''.NEF'', ''.arw'', ''.ARW'', ''.dng'', ''.DNG'', ''.raf'', ''.RAF'']
   \<and> (\<forall>c \<in> set (raw_candidates p). parent (Path c) = parent (Path p))
   \<and> (find_matching_raw_file fs p = None \<longleftrightarrow> (\<forall>c \<in> set (raw_candidates p). \<not> exists fs c))
   \<and> (\<forall>r. find_matching_raw_file fs p = Some r \<longleftrightarrow>
         (\<exists>i < length (raw_candidates p). r = raw_candidates p ! i \<and> exists fs r
            \<and> (\<forall>j < i. \<not> exists fs (raw_candidates p ! j))))"
proof (intro conjI allI ballI)
  show "raw_candidates p =
     map (\<lambda>e. path_str (raw_sibling p e))
       [''.nef'', ''.NEF'', ''.arw'', ''.ARW'', ''.dng'', ''.DNG'', ''.raf'', ''.RAF'']"
    using raw_candidates_eq[of p] by (simp only: raw_forms_def)
next
  fix c
  assume "c \<in> set (raw_candidates p)"
  then obtain e where "e \<in> set raw_forms" and "c = path_str (raw_sibling p e)"
    by (auto simp: raw_candidates_eq)
  then show "parent (Path c) = parent (Path p)" by (simp add: candidate_parts(1))
next
  show "find_matching_raw_file fs p = None \<longleftrightarrow> (\<forall>c \<in> set (raw_candidates p). \<not> exists fs c)"
    by (auto simp: find_matching_raw_file_def find_None_iff)
next
  fix r
  show "find_matching_raw_file fs p = Some r \<longleftrightarrow>
         (\<exists>i < length (raw_candidates p). r = raw_candidates p ! i \<and> exists fs r
            \<and> (\<forall>j < i. \<not> exists fs (raw_candidates p ! j)))"
    unfolding find_matching_raw_file_def find_Some_iff by blast
qed

theorem find_matching_raw_file_first_candidate_witness:
  "raw_candidates ''d/photo.jpg'' =
     [''d/photo.nef'', ''d/photo.NEF'', ''d/photo.arw'', ''d/photo.ARW'',
      ''d/photo.dng'', ''d/photo.DNG'', ''d/photo.raf'', ''d/photo.RAF'']
   \<and> find_matching_raw_file two_raws_fs ''d/photo.jpg'' = Some ''d/photo.NEF''
   \<and> find_matching_raw_file empty_fs ''d/photo.jpg'' = None"
proof -
  have c: "raw_candidates ''d/photo.jpg'' =
     [''d/photo.nef'', ''d/photo.NEF'', ''d/photo.arw'', ''d/photo.ARW'',
      ''d/photo.dng'', ''d/photo.DNG'', ''d/photo.raf'', ''d/photo.RAF'']"
    by code_simp
  have "\<exists>i < length (raw_candidates ''d/photo.jpg''). ''d/photo.NEF'' = raw_candidates ''d/photo.jpg'' ! i
      \<and> exists two_raws_fs ''d/photo.NEF''
      \<and> (\<forall>j < i. \<not> exists two_raws_fs (raw_candidates ''d/photo.jpg'' ! j))"
    unfolding c by (rule exI[of _ 1]) (simp add: exists_def two_raws_fs_def fs_with_def)
  then have s: "find_matching_raw_file two_raws_fs ''d/photo.jpg'' = Some ''d/photo.NEF''"
    using find_matching_raw_file_first_candidate[of "''d/photo.jpg''" two_raws_fs] by blast
  have "\<forall>c \<in> set (raw_candidates ''d/photo.jpg''). \<not> exists empty_fs c"
    by (simp add: exists_def empty_fs_def)
  then have n: "find_matching_raw_file empty_fs ''d/photo.jpg'' = None"
    using find_matching_raw_file_first_candidate[of "''d/photo.jpg''" empty_fs] by blast
  from c s n show ?thesis by simp
qed

text \<open>
  Claim C8, counterexample: a RAW file in the same directory whose name differs from the
  image's only in case is not found.
\<close>

theorem find_matching_raw_file_case_counterexample:
  "find_matching_raw_file upper_name_fs ''d/photo.jpg'' = None
   \<and> exists upper_name_fs ''d/PHOTO.nef''
   \<and> parent (Path ''d/PHOTO.nef'') = parent (Path ''d/photo.jpg'')
   \<and> lower (stem_of ''d/PHOTO.nef'') = lower (stem_of ''d/photo.jpg'')
   \<and> suffix_of ''d/PHOTO.nef'' = ''.nef''"
  by code_simp


section \<open>Lemmas about filing\<close>

declare free_target.simps [simp del]


lemma run_items_append:
  "run_items pl c d s (xs @ ys) = run_items pl c d (run_items pl c d s xs) ys"
  by (simp add: run_items_def)

lemma process_directory_items:
  "process_directory pl c d dn s (walk_root, dirs, files) =
     run_items pl c d s (if in_destination pl dn walk_root then []
                         else map (\<lambda>filename. (walk_root, filename)) files)"
  by (simp add: process_directory_def run_items_def foldl_map)

lemma walk_as_items:
  "foldl (process_directory pl c d dn) s walk = run_items pl c d s (work_items pl dn walk)"
proof (induction walk arbitrary: s)
  case Nil
  then show ?case by (simp add: work_items_def run_items_def)
next
  case (Cons entry walk)
  obtain walk_root dirs files where e: "entry = (walk_root, dirs, files)" by (cases entry)
  have "work_items pl dn (entry # walk) =
      (if in_destination pl dn walk_root then [] else map (\<lambda>filename. (walk_root, filename)) files)
      @ work_items pl dn walk"
    by (simp add: work_items_def e)
  moreover have "foldl (process_directory pl c d dn) s (entry # walk) =
      run_items pl c d (process_directory pl c d dn s entry) (work_items pl dn walk)"
    using Cons.IH by simp
  ultimately show ?case
    by (simp only: e process_directory_items run_items_append)
qed

lemma organize_photos_as_items:
  "organize_photos pl walk source_folder destination copy_files fs =
     state_after (length (work_items pl (normalized pl (destination_of source_folder destination)) walk))
       pl walk source_folder destination copy_files fs"
  by (simp add: organize_photos_def state_after_def walk_as_items destination_of_def Let_def)













section \<open>Claims about filing\<close>










lemma starts_with_iff: "starts_with s p \<longleftrightarrow> (\<exists>r. s = p @ r)"
  by (induction s p rule: starts_with.induct) auto

lemma in_destination_iff:
  "in_destination pl dest_normalized walk_root \<longleftrightarrow>
     normalized pl walk_root = dest_normalized
     \<or> (\<exists>rest. normalized pl walk_root = dest_normalized @ ''/'' @ rest)"
  by (simp add: in_destination_def starts_with_iff Let_def)

lemma work_items_filter:
  "work_items pl dn (filter (\<lambda>(walk_root, dirs, files). \<not> in_destination pl dn walk_root) walk)
     = work_items pl dn walk"
  by (induction walk) (auto simp: work_items_def)

lemma skipped_directories_ignored:
  "organize_photos pl
       (filter (\<lambda>(walk_root, dirs, files).
          \<not> in_destination pl (normalized pl (destination_of source_folder destination)) walk_root) walk)
       source_folder destination copy_files fs
     = organize_photos pl walk source_folder destination copy_files fs"
  by (simp add: organize_photos_as_items state_after_def work_items_filter)


end
